theory Spec2Isabelle
  imports Main "HOL-Library.AList"
begin

section \<open>Conventions of the embedding\<close>

text \<open>
  The three services of the repository (\<^verbatim>\<open>services/cache.ts\<close>,
  \<^verbatim>\<open>services/rateLimiter.ts\<close>, \<^verbatim>\<open>services/queue.ts\<close>) keep their state in
  module-level variables. Each function below takes that state as an argument and
  returns the updated state.

  \<^item> Times are milliseconds as \<open>int\<close>. \<^verbatim>\<open>Date.now()\<close> is an argument \<open>now\<close> of
    each call; one synchronous call sees one reading of the clock, which is passed to
    every \<^verbatim>\<open>Date.now()\<close> the call makes.
  \<^item> A JavaScript \<^verbatim>\<open>Map\<close> is an association list in insertion order with distinct
    keys: \<^verbatim>\<open>Map.set\<close> is \<open>AList.update\<close> (overwrite in place, or append),
    \<^verbatim>\<open>Map.delete\<close> is \<open>AList.delete\<close>, \<^verbatim>\<open>Map.get\<close> is \<open>map_of\<close>,
    \<^verbatim>\<open>Map.size\<close> is \<open>length\<close>.
  \<^item> Logging calls are left out: they touch only the logger's own array.
\<close>

section \<open>JavaScript helpers\<close>

text \<open>
  \<^verbatim>\<open>Number.prototype.toString()\<close> on an integer: its decimal digits (JavaScript
  prints them so for every integer below \<open>10 ^ 21\<close> in absolute value, which covers
  clock readings and user ids).
\<close>

fun toString_nat :: "nat \<Rightarrow> string" where
  "toString_nat n =
     (if n < 10 then [''0123456789'' ! n]
      else toString_nat (n div 10) @ [''0123456789'' ! (n mod 10)])"

declare toString_nat.simps [simp del]

definition toString :: "int \<Rightarrow> string" where
  "toString i = (if i < 0 then CHR ''-'' # toString_nat (nat (- i)) else toString_nat (nat i))"

text \<open>\<^verbatim>\<open>String.prototype.split(sep)\<close> for a one-character separator.\<close>

fun js_split :: "char \<Rightarrow> string \<Rightarrow> string list" where
  "js_split sep [] = [[]]"
| "js_split sep (c # cs) =
     (if c = sep then [] # js_split sep cs
      else (case js_split sep cs of
              [] \<Rightarrow> [[c]]
            | w # ws \<Rightarrow> (c # w) # ws))"

text \<open>Indexing an array: \<^verbatim>\<open>undefined\<close> out of range.\<close>

definition at_index :: "'a list \<Rightarrow> nat \<Rightarrow> 'a option" where
  "at_index xs i = (if i < length xs then Some (xs ! i) else None)"

text \<open>\<^verbatim>\<open>Math.ceil(x / d)\<close> for an integer \<open>x\<close> and a positive integer \<open>d\<close>.\<close>

definition ceil_div :: "int \<Rightarrow> int \<Rightarrow> int" where
  "ceil_div x d = - ((- x) div d)"

section \<open>Cache store (\<^verbatim>\<open>services/cache.ts\<close>)\<close>

record 'v CacheEntry =
  entry_value :: 'v
  timestamp :: int
  ttl :: int

record CacheStats =
  hits :: nat
  misses :: nat
  size_stat :: nat
  maxSize :: nat
  averageResponseTime :: int

record 'v cache_state =
  cache :: "(string \<times> 'v CacheEntry) list"
  stats :: CacheStats
  responseTimes :: "int list"

definition CACHE_TTL :: int where
  "CACHE_TTL = 60 * 1000"

definition MAX_CACHE_SIZE :: nat where
  "MAX_CACHE_SIZE = 100"

text \<open>The module's initial state.\<close>

definition initial_cache :: "'v cache_state" where
  "initial_cache =
     \<lparr>cache = [],
      stats = \<lparr>hits = 0, misses = 0, size_stat = 0, maxSize = MAX_CACHE_SIZE,
               averageResponseTime = 0\<rparr>,
      responseTimes = []\<rparr>"

definition isExpired :: "int \<Rightarrow> 'v CacheEntry \<Rightarrow> bool" where
  "isExpired now entry \<longleftrightarrow> now - timestamp entry > ttl entry"

text \<open>
  \<^verbatim>\<open>Math.round(sum / responseTimes.length)\<close> on integer milliseconds: rounding to the
  nearest integer, halves upwards.
\<close>

definition updateStats :: "'v cache_state \<Rightarrow> 'v cache_state" where
  "updateStats s =
     (let st = (stats s)\<lparr>size_stat := length (cache s)\<rparr>;
          n = int (length (responseTimes s))
      in s\<lparr>stats :=
           (if responseTimes s \<noteq> []
            then st\<lparr>averageResponseTime := (2 * sum_list (responseTimes s) + n) div (2 * n)\<rparr>
            else st)\<rparr>)"

definition removeExpiredEntries :: "int \<Rightarrow> 'v cache_state \<Rightarrow> 'v cache_state" where
  "removeExpiredEntries now s =
     (let kept = filter (\<lambda>(key, entry). \<not> now - timestamp entry > ttl entry) (cache s);
          removedCount = length (cache s) - length kept;
          s' = s\<lparr>cache := kept\<rparr>
      in if removedCount > 0 then updateStats s' else s')"

text \<open>
  The loop of \<^verbatim>\<open>evictLRU\<close>: one step per entry, in the iteration order of the map, on
  the pair \<open>(oldestKey, oldestTime)\<close>.
\<close>

definition evictLRU_step ::
  "string \<times> 'v CacheEntry \<Rightarrow> string \<times> int \<Rightarrow> string \<times> int" where
  "evictLRU_step = (\<lambda>(key, entry) (oldestKey, oldestTime).
     if timestamp entry < oldestTime then (key, timestamp entry) else (oldestKey, oldestTime))"

definition evictLRU_scan :: "int \<Rightarrow> (string \<times> 'v CacheEntry) list \<Rightarrow> string \<times> int" where
  "evictLRU_scan now c = fold evictLRU_step c ('''', now)"

text \<open>\<^verbatim>\<open>if (oldestKey)\<close> holds for every string but the empty one.\<close>

definition evictLRU :: "int \<Rightarrow> 'v cache_state \<Rightarrow> 'v cache_state" where
  "evictLRU now s =
     (if length (cache s) \<ge> MAX_CACHE_SIZE
      then (let oldestKey = fst (evictLRU_scan now (cache s))
            in if oldestKey \<noteq> '''' then s\<lparr>cache := AList.delete oldestKey (cache s)\<rparr> else s)
      else s)"

definition recordResponseTime :: "int \<Rightarrow> 'v cache_state \<Rightarrow> 'v cache_state" where
  "recordResponseTime responseTime s =
     (let rts = responseTimes s @ [responseTime];
          rts' = (if length rts > 100 then drop (length rts - 100) rts else rts)
      in updateStats (s\<lparr>responseTimes := rts'\<rparr>))"

definition getFromCache :: "string \<Rightarrow> int \<Rightarrow> 'v cache_state \<Rightarrow> 'v option \<times> 'v cache_state" where
  "getFromCache key now s =
     (case map_of (cache s) key of
        None \<Rightarrow>
          (None, recordResponseTime (now - now)
                   (s\<lparr>stats := (stats s)\<lparr>misses := misses (stats s) + 1\<rparr>\<rparr>))
      | Some entry \<Rightarrow>
          if isExpired now entry
          then (None, recordResponseTime (now - now)
                        (s\<lparr>cache := AList.delete key (cache s),
                           stats := (stats s)\<lparr>misses := misses (stats s) + 1\<rparr>\<rparr>))
          else (Some (entry_value entry),
                recordResponseTime (now - now)
                  (s\<lparr>cache := AList.update key (entry\<lparr>timestamp := now\<rparr>) (cache s),
                     stats := (stats s)\<lparr>hits := hits (stats s) + 1\<rparr>\<rparr>)))"

definition setCache :: "string \<Rightarrow> 'v \<Rightarrow> int \<Rightarrow> int \<Rightarrow> 'v cache_state \<Rightarrow> 'v cache_state" where
  "setCache key v ttl_ms now s =
     (let s1 = removeExpiredEntries now s;
          s2 = evictLRU now s1;
          entry = \<lparr>entry_value = v, timestamp = now, ttl = ttl_ms\<rparr>
      in recordResponseTime (now - now) (s2\<lparr>cache := AList.update key entry (cache s2)\<rparr>))"

definition deleteFromCache :: "string \<Rightarrow> int \<Rightarrow> 'v cache_state \<Rightarrow> bool \<times> 'v cache_state" where
  "deleteFromCache key now s =
     (let existed = (map_of (cache s) key \<noteq> None)
      in (existed, recordResponseTime (now - now) (s\<lparr>cache := AList.delete key (cache s)\<rparr>)))"

definition clearCache :: "int \<Rightarrow> 'v cache_state \<Rightarrow> 'v cache_state" where
  "clearCache now s =
     recordResponseTime (now - now)
       (s\<lparr>cache := [],
          stats := (stats s)\<lparr>hits := 0, misses := 0, size_stat := 0\<rparr>,
          responseTimes := []\<rparr>)"

text \<open>A run of \<^verbatim>\<open>setCache\<close> calls, each with the default TTL, all within one clock tick.\<close>

fun setCache_all :: "string list \<Rightarrow> 'v \<Rightarrow> int \<Rightarrow> 'v cache_state \<Rightarrow> 'v cache_state" where
  "setCache_all [] v now s = s"
| "setCache_all (key # keys) v now s = setCache_all keys v now (setCache key v CACHE_TTL now s)"

section \<open>Rate limiter (\<^verbatim>\<open>services/rateLimiter.ts\<close>)\<close>

record RateLimitEntry =
  requests :: "int list"
  burstRequests :: "int list"

record RateLimitConfig =
  windowMs :: int
  maxRequests :: nat
  burstWindowMs :: int
  maxBurstRequests :: nat

record RateLimitInfo =
  limit :: nat
  remaining :: int
  resetTime :: int

record check_result =
  allowed :: bool
  info :: RateLimitInfo

definition RATE_LIMIT_CONFIG :: RateLimitConfig where
  "RATE_LIMIT_CONFIG =
     \<lparr>windowMs = 60 * 1000, maxRequests = 10, burstWindowMs = 10 * 1000, maxBurstRequests = 5\<rparr>"

text \<open>
  \<^verbatim>\<open>rateLimitStore\<close> maps a client identifier to its entry. The entry is an object
  that the functions below mutate in place; each of them returns the mutated entry, and
  \<open>checkRateLimit\<close> writes the final one back under the client's key.
\<close>

type_synonym rate_limit_store = "string \<rightharpoonup> RateLimitEntry"

definition cleanupExpiredRequests :: "int \<Rightarrow> int list \<Rightarrow> int \<Rightarrow> int list" where
  "cleanupExpiredRequests now reqs window = filter (\<lambda>timestamp. now - timestamp < window) reqs"

definition isRateLimited :: "int \<Rightarrow> RateLimitEntry \<Rightarrow> RateLimitConfig \<Rightarrow> bool \<times> RateLimitEntry" where
  "isRateLimited now entry config =
     (let entry1 = entry\<lparr>requests := cleanupExpiredRequests now (requests entry) (windowMs config)\<rparr>;
          entry2 = entry1\<lparr>burstRequests :=
                     cleanupExpiredRequests now (burstRequests entry1) (burstWindowMs config)\<rparr>
      in if length (burstRequests entry2) \<ge> maxBurstRequests config then (True, entry2)
         else if length (requests entry2) \<ge> maxRequests config then (True, entry2)
         else (False, entry2))"

definition addRequest :: "int \<Rightarrow> RateLimitEntry \<Rightarrow> RateLimitConfig \<Rightarrow> RateLimitEntry" where
  "addRequest now entry config =
     (let entry1 = entry\<lparr>requests := requests entry @ [now]\<rparr>;
          entry2 = entry1\<lparr>burstRequests := burstRequests entry1 @ [now]\<rparr>;
          entry3 = entry2\<lparr>requests := cleanupExpiredRequests now (requests entry2) (windowMs config)\<rparr>
      in entry3\<lparr>burstRequests :=
                  cleanupExpiredRequests now (burstRequests entry3) (burstWindowMs config)\<rparr>)"

text \<open>
  \<^verbatim>\<open>Math.min(...entry.requests, ...entry.burstRequests, now)\<close> is the fold of \<open>min\<close>
  over both arrays, starting from \<open>now\<close>.
\<close>

definition getRateLimitInfo ::
  "int \<Rightarrow> RateLimitEntry \<Rightarrow> RateLimitConfig \<Rightarrow> RateLimitInfo \<times> RateLimitEntry" where
  "getRateLimitInfo now entry config =
     (let entry1 = entry\<lparr>requests := cleanupExpiredRequests now (requests entry) (windowMs config)\<rparr>;
          entry2 = entry1\<lparr>burstRequests :=
                     cleanupExpiredRequests now (burstRequests entry1) (burstWindowMs config)\<rparr>;
          oldestRequest = fold min (requests entry2 @ burstRequests entry2) now;
          reset = oldestRequest + windowMs config
      in (\<lparr>limit = maxRequests config,
           remaining = max 0 (int (maxRequests config) - int (length (requests entry2))),
           resetTime = ceil_div reset 1000\<rparr>,
          entry2))"

text \<open>
  The entry that \<^verbatim>\<open>checkRateLimit\<close> works on: the stored one, or a fresh empty one for
  a client that has none.
\<close>

definition stored_entry :: "rate_limit_store \<Rightarrow> string \<Rightarrow> RateLimitEntry" where
  "stored_entry store clientId =
     (case store clientId of None \<Rightarrow> \<lparr>requests = [], burstRequests = []\<rparr> | Some e \<Rightarrow> e)"

text \<open>
  \<open>checkRateLimit\<close> takes the client identifier that \<^verbatim>\<open>getClientIdentifier(req)\<close>
  extracted from the request headers.
\<close>

definition checkRateLimit ::
  "string \<Rightarrow> int \<Rightarrow> rate_limit_store \<Rightarrow> check_result \<times> rate_limit_store" where
  "checkRateLimit clientId now store =
     (let entry = stored_entry store clientId;
          (isLimited, entry1) = isRateLimited now entry RATE_LIMIT_CONFIG;
          entry2 = (if \<not> isLimited then addRequest now entry1 RATE_LIMIT_CONFIG else entry1);
          (inf, entry3) = getRateLimitInfo now entry2 RATE_LIMIT_CONFIG
      in (\<lparr>allowed = \<not> isLimited, info = inf\<rparr>, store(clientId \<mapsto> entry3)))"

text \<open>
  Successive requests of one client, at the given times: the \<open>allowed\<close> flag of each,
  and the final store.
\<close>

fun checkRateLimit_all ::
  "string \<Rightarrow> int list \<Rightarrow> rate_limit_store \<Rightarrow> bool list \<times> rate_limit_store" where
  "checkRateLimit_all clientId [] store = ([], store)"
| "checkRateLimit_all clientId (now # later) store =
     (let (res, store1) = checkRateLimit clientId now store;
          (flags, store2) = checkRateLimit_all clientId later store1
      in (allowed res # flags, store2))"

section \<open>Job queue (\<^verbatim>\<open>services/queue.ts\<close>)\<close>

record QueueJob =
  job_id :: string
  userId :: int
  job_timestamp :: int
  retries :: nat

record QueueConfig =
  maxConcurrency :: nat
  retryAttempts :: nat
  retryDelay :: int

definition QUEUE_CONFIG :: QueueConfig where
  "QUEUE_CONFIG = \<lparr>maxConcurrency = 5, retryAttempts = 3, retryDelay = 1000\<rparr>"

text \<open>An entry of \<^verbatim>\<open>jobResults\<close>: \<^verbatim>\<open>{ result?, error?, timestamp }\<close>.\<close>

record 'a JobResult =
  result :: "'a option"
  error :: "string option"
  result_timestamp :: int

record QueueStats =
  totalJobs :: nat
  completedJobs :: nat
  failedJobs :: nat
  activeJobs_stat :: nat
  queuedJobs_stat :: nat

text \<open>
  The queue is asynchronous code on the single-threaded event loop. Every piece of code
  between two \<^verbatim>\<open>await\<close>s runs to completion, so the model has one transition per such
  piece. An \<^verbatim>\<open>executeJob\<close> call in flight is suspended at one of three places:
  \<^item> \<open>AwaitProcessor\<close>: at \<^verbatim>\<open>await processor(job)\<close> in the \<^verbatim>\<open>processJob\<close> called by
    \<^verbatim>\<open>executeJob\<close>;
  \<^item> \<open>AwaitTimer due\<close>: at the \<^verbatim>\<open>setTimeout\<close> promise of \<^verbatim>\<open>retryJob\<close>, which fires
    at time \<open>due\<close>;
  \<^item> \<open>AwaitRetryProcessor\<close>: at \<^verbatim>\<open>await processor(job)\<close> in the \<^verbatim>\<open>processJob\<close> called
    by \<^verbatim>\<open>retryJob\<close>.

  The processor is the caller's function: the model does not run it, it records each call
  of it in \<open>invocations\<close> (the id of the job it was called with), and takes the outcome of
  the returned promise as an event. \<open>callers\<close> holds the promise that each \<^verbatim>\<open>addJob\<close>
  call returned, with the id of the job it polls for. Nothing awaits the promise of a
  failed \<^verbatim>\<open>executeJob\<close>; what the host process does with that unhandled rejection is
  outside the model.
\<close>

datatype suspended = AwaitProcessor | AwaitTimer int | AwaitRetryProcessor

datatype 'a promise = Pending | Resolved "'a option" | Rejected string

record 'a queue_state =
  jobQueue :: "QueueJob list"
  activeJobs :: "string list"
  jobResults :: "(string \<times> 'a JobResult) list"
  queueStats :: QueueStats
  executions :: "(QueueJob \<times> suspended) list"
  invocations :: "string list"
  callers :: "(string \<times> 'a promise) list"

text \<open>The state after \<^verbatim>\<open>clearQueue()\<close>, which is also the module's initial state.\<close>

definition clearQueue :: "'a queue_state" where
  "clearQueue =
     \<lparr>jobQueue = [], activeJobs = [], jobResults = [],
      queueStats = \<lparr>totalJobs = 0, completedJobs = 0, failedJobs = 0,
                    activeJobs_stat = 0, queuedJobs_stat = 0\<rparr>,
      executions = [], invocations = [], callers = []\<rparr>"

text \<open>
  \<open>rnd\<close> is the value of \<^verbatim>\<open>Math.random().toString(36).substr(2, 9)\<close>: up to nine
  characters out of \<^verbatim>\<open>0-9a-z\<close>.
\<close>

definition generateJobId :: "int \<Rightarrow> string \<Rightarrow> string" where
  "generateJobId now rnd = ''job_'' @ toString now @ ''_'' @ rnd"

definition createJob :: "int \<Rightarrow> int \<Rightarrow> string \<Rightarrow> QueueJob" where
  "createJob uid now rnd =
     \<lparr>job_id = generateJobId now rnd, userId = uid, job_timestamp = now, retries = 0\<rparr>"

definition updateQueueStats :: "'a queue_state \<Rightarrow> 'a queue_state" where
  "updateQueueStats s =
     s\<lparr>queueStats := (queueStats s)\<lparr>activeJobs_stat := length (activeJobs s),
                                     queuedJobs_stat := length (jobQueue s)\<rparr>\<rparr>"

text \<open>
  \<^verbatim>\<open>processJob\<close> in three pieces: the call of the processor, and the code after the
  \<^verbatim>\<open>await\<close> when the processor's promise is fulfilled or is rejected (the \<^verbatim>\<open>catch\<close>
  block, which rethrows).
\<close>

definition processJob_call :: "QueueJob \<Rightarrow> 'a queue_state \<Rightarrow> 'a queue_state" where
  "processJob_call job s = s\<lparr>invocations := invocations s @ [job_id job]\<rparr>"

definition processJob_fulfilled :: "QueueJob \<Rightarrow> 'a \<Rightarrow> int \<Rightarrow> 'a queue_state \<Rightarrow> 'a queue_state" where
  "processJob_fulfilled job v now s =
     s\<lparr>jobResults := AList.update (job_id job)
                        \<lparr>result = Some v, error = None, result_timestamp = now\<rparr> (jobResults s),
       queueStats := (queueStats s)\<lparr>completedJobs := completedJobs (queueStats s) + 1\<rparr>\<rparr>"

definition processJob_rejected :: "QueueJob \<Rightarrow> string \<Rightarrow> int \<Rightarrow> 'a queue_state \<Rightarrow> 'a queue_state" where
  "processJob_rejected job err now s =
     s\<lparr>jobResults := AList.update (job_id job)
                        \<lparr>result = None, error = Some err, result_timestamp = now\<rparr> (jobResults s),
       queueStats := (queueStats s)\<lparr>failedJobs := failedJobs (queueStats s) + 1\<rparr>\<rparr>"

text \<open>
  \<^verbatim>\<open>retryJob\<close> up to its \<^verbatim>\<open>await\<close>: it throws (\<open>Inl\<close>), or it increments
  \<^verbatim>\<open>job.retries\<close> and sleeps for the returned delay before it calls \<^verbatim>\<open>processJob\<close>.
\<close>

definition retryJob :: "QueueJob \<Rightarrow> string + QueueJob \<times> int" where
  "retryJob job =
     (if retries job \<ge> retryAttempts QUEUE_CONFIG
      then Inl (''Job '' @ job_id job @ '' exceeded maximum retry attempts'')
      else (let job' = job\<lparr>retries := retries job + 1\<rparr>
            in Inr (job', retryDelay QUEUE_CONFIG * int (retries job'))))"

text \<open>The \<^verbatim>\<open>catch\<close> block of \<^verbatim>\<open>executeJob\<close>.\<close>

definition executeJob_catch :: "QueueJob \<Rightarrow> string \<Rightarrow> string + QueueJob \<times> int" where
  "executeJob_catch job err =
     (if retries job < retryAttempts QUEUE_CONFIG then retryJob job else Inl err)"

text \<open>The \<^verbatim>\<open>finally\<close> callback that \<^verbatim>\<open>processQueue\<close> attaches to \<^verbatim>\<open>executeJob\<close>.\<close>

definition executeJob_finally :: "QueueJob \<Rightarrow> 'a queue_state \<Rightarrow> 'a queue_state" where
  "executeJob_finally job s =
     updateQueueStats (s\<lparr>activeJobs := removeAll (job_id job) (activeJobs s)\<rparr>)"

text \<open>
  The search for a result to reuse in \<^verbatim>\<open>processQueue\<close>. The predicate given to
  \<^verbatim>\<open>find\<close> ignores its argument.
\<close>

definition existingResult ::
  "QueueJob \<Rightarrow> int \<Rightarrow> (string \<times> 'a JobResult) list \<Rightarrow> 'a JobResult option" where
  "existingResult job now results =
     List.find (\<lambda>res.
       (let recentJobs = filter (\<lambda>(jobId, r). now - result_timestamp r < 5000) results
        in list_ex (\<lambda>(jobId, r).
             at_index (js_split CHR ''_'' jobId) 2 = Some (toString (userId job))) recentJobs))
       (map snd results)"

function processQueue :: "int \<Rightarrow> 'a queue_state \<Rightarrow> 'a queue_state" where
  "processQueue now s =
     (case jobQueue s of
        [] \<Rightarrow> s
      | job # rest \<Rightarrow>
          if length (activeJobs s) < maxConcurrency QUEUE_CONFIG
          then (case existingResult job now (jobResults s) of
                  Some r \<Rightarrow>
                    if error r = None
                    then processQueue now
                           (s\<lparr>jobQueue := rest,
                              jobResults := AList.update (job_id job) r (jobResults s),
                              queueStats := (queueStats s)
                                \<lparr>completedJobs := completedJobs (queueStats s) + 1\<rparr>\<rparr>)
                    else processQueue now
                           (updateQueueStats
                             (processJob_call job
                               (s\<lparr>jobQueue := rest,
                                  executions := executions s @ [(job, AwaitProcessor)],
                                  activeJobs := (if job_id job \<in> set (activeJobs s)
                                                 then activeJobs s
                                                 else activeJobs s @ [job_id job])\<rparr>)))
                | None \<Rightarrow>
                    processQueue now
                      (updateQueueStats
                        (processJob_call job
                          (s\<lparr>jobQueue := rest,
                             executions := executions s @ [(job, AwaitProcessor)],
                             activeJobs := (if job_id job \<in> set (activeJobs s)
                                            then activeJobs s
                                            else activeJobs s @ [job_id job])\<rparr>))))
          else s)"
  by pat_completeness auto
termination
  by (relation "measure (\<lambda>(now, s). length (jobQueue s))")
     (auto simp: updateQueueStats_def processJob_call_def)

declare processQueue.simps [simp del]

text \<open>\<^verbatim>\<open>pollForResult\<close> of the first unsettled caller that waits for job \<open>jid\<close>.\<close>

fun pollForResult ::
  "string \<Rightarrow> (string \<times> 'a JobResult) list \<Rightarrow> (string \<times> 'a promise) list
     \<Rightarrow> (string \<times> 'a promise) list" where
  "pollForResult jid results [] = []"
| "pollForResult jid results ((j, p) # cs) =
     (if j = jid \<and> p = Pending
      then (case map_of results jid of
              None \<Rightarrow> (j, p) # cs
            | Some r \<Rightarrow>
                (case error r of
                   Some e \<Rightarrow> (j, Rejected e) # cs
                 | None \<Rightarrow> (j, Resolved (result r)) # cs))
      else (j, p) # pollForResult jid results cs)"

text \<open>
  The synchronous part of \<^verbatim>\<open>addJob\<close>, up to and including the first poll. Its
  search for a pending job of the same user (\<^verbatim>\<open>jobQueue.find\<close>) only writes a log
  line, and the new job is queued in either case.
\<close>

definition addJob :: "int \<Rightarrow> int \<Rightarrow> string \<Rightarrow> 'a queue_state \<Rightarrow> 'a queue_state" where
  "addJob uid now rnd s =
     (let job = createJob uid now rnd;
          s1 = s\<lparr>queueStats := (queueStats s)\<lparr>totalJobs := totalJobs (queueStats s) + 1\<rparr>\<rparr>;
          s2 = updateQueueStats (s1\<lparr>jobQueue := jobQueue s1 @ [job]\<rparr>);
          s3 = processQueue now s2;
          s4 = s3\<lparr>callers := callers s3 @ [(job_id job, Pending)]\<rparr>
      in s4\<lparr>callers := pollForResult (job_id job) (jobResults s4) (callers s4)\<rparr>)"

text \<open>
  The events of the loop. An event that cannot happen in a state gives \<open>None\<close>: a
  processor promise settling or a timer firing for a job that is not suspended there,
  a timer firing before it is due, a poll for which no caller waits.
\<close>

datatype 'a event =
    AddJob int int string
  | ProcessorSettles string "string + 'a" int
  | TimerFires string int
  | Poll string

definition find_execution :: "string \<Rightarrow> (QueueJob \<times> suspended) list \<Rightarrow> (QueueJob \<times> suspended) option" where
  "find_execution jid xs = List.find (\<lambda>(job, p). job_id job = jid) xs"

fun remove_execution :: "string \<Rightarrow> (QueueJob \<times> suspended) list \<Rightarrow> (QueueJob \<times> suspended) list" where
  "remove_execution jid [] = []"
| "remove_execution jid ((job, p) # xs) =
     (if job_id job = jid then xs else (job, p) # remove_execution jid xs)"

fun replace_execution ::
  "string \<Rightarrow> QueueJob \<times> suspended \<Rightarrow> (QueueJob \<times> suspended) list \<Rightarrow> (QueueJob \<times> suspended) list" where
  "replace_execution jid x [] = []"
| "replace_execution jid x ((job, p) # xs) =
     (if job_id job = jid then x # xs else (job, p) # replace_execution jid x xs)"

text \<open>The end of an \<^verbatim>\<open>executeJob\<close> call, fulfilled or rejected: the \<^verbatim>\<open>finally\<close> callback runs.\<close>

definition executeJob_done :: "QueueJob \<Rightarrow> 'a queue_state \<Rightarrow> 'a queue_state" where
  "executeJob_done job s =
     executeJob_finally job (s\<lparr>executions := remove_execution (job_id job) (executions s)\<rparr>)"

definition processor_settles ::
  "string \<Rightarrow> string + 'a \<Rightarrow> int \<Rightarrow> 'a queue_state \<Rightarrow> 'a queue_state option" where
  "processor_settles jid outcome now s =
     (case find_execution jid (executions s) of
        None \<Rightarrow> None
      | Some (job, AwaitTimer due) \<Rightarrow> None
      | Some (job, AwaitProcessor) \<Rightarrow>
          (case outcome of
             Inr v \<Rightarrow> Some (executeJob_done job (processJob_fulfilled job v now s))
           | Inl err \<Rightarrow>
               (case executeJob_catch job err of
                  Inr (job', delay) \<Rightarrow>
                    Some ((processJob_rejected job err now s)
                            \<lparr>executions := replace_execution jid (job', AwaitTimer (now + delay))
                                             (executions s)\<rparr>)
                | Inl e \<Rightarrow> Some (executeJob_done job (processJob_rejected job err now s))))
      | Some (job, AwaitRetryProcessor) \<Rightarrow>
          (case outcome of
             Inr v \<Rightarrow> Some (executeJob_done job (processJob_fulfilled job v now s))
           | Inl err \<Rightarrow> Some (executeJob_done job (processJob_rejected job err now s))))"

definition timer_fires :: "string \<Rightarrow> int \<Rightarrow> 'a queue_state \<Rightarrow> 'a queue_state option" where
  "timer_fires jid now s =
     (case find_execution jid (executions s) of
        Some (job, AwaitTimer due) \<Rightarrow>
          if due \<le> now
          then Some (processJob_call job
                 (s\<lparr>executions := replace_execution jid (job, AwaitRetryProcessor) (executions s)\<rparr>))
          else None
      | _ \<Rightarrow> None)"

definition poll :: "string \<Rightarrow> 'a queue_state \<Rightarrow> 'a queue_state option" where
  "poll jid s =
     (if (jid, Pending) \<in> set (callers s)
      then Some (s\<lparr>callers := pollForResult jid (jobResults s) (callers s)\<rparr>)
      else None)"

fun step :: "'a event \<Rightarrow> 'a queue_state \<Rightarrow> 'a queue_state option" where
  "step (AddJob uid now rnd) s = Some (addJob uid now rnd s)"
| "step (ProcessorSettles jid outcome now) s = processor_settles jid outcome now s"
| "step (TimerFires jid now) s = timer_fires jid now s"
| "step (Poll jid) s = poll jid s"

fun run :: "'a event list \<Rightarrow> 'a queue_state \<Rightarrow> 'a queue_state option" where
  "run [] s = Some s"
| "run (e # es) s = (case step e s of None \<Rightarrow> None | Some s' \<Rightarrow> run es s')"

section \<open>Inputs and measures used in the proofs\<close>

text \<open>
  A cache at capacity: the keys \<^verbatim>\<open>user:1\<close> to \<^verbatim>\<open>user:100\<close>, written at the times 1 to
  100 with the default TTL.
\<close>

definition full_cache :: "nat cache_state" where
  "full_cache =
     initial_cache\<lparr>cache :=
       map (\<lambda>i. (''user:'' @ toString (int i),
                  \<lparr>entry_value = i, timestamp = int i, ttl = CACHE_TTL\<rparr>)) [1..<101]\<rparr>"

text \<open>
  A cache at capacity whose oldest entry has the empty string as its key: that entry
  written at time 0, then \<^verbatim>\<open>user:1\<close> to \<^verbatim>\<open>user:99\<close> at the times 1 to 99.
\<close>

definition full_cache_empty_key :: "nat cache_state" where
  "full_cache_empty_key =
     initial_cache\<lparr>cache :=
       ('''', \<lparr>entry_value = 0, timestamp = 0, ttl = CACHE_TTL\<rparr>) #
       map (\<lambda>i. (''user:'' @ toString (int i),
                  \<lparr>entry_value = i, timestamp = int i, ttl = CACHE_TTL\<rparr>)) [1..<100]\<rparr>"

text \<open>
  How many more calls of the processor a state can still lead to without a new
  \<^verbatim>\<open>addJob\<close>: two for each queued job, one for each execution that has not yet reached
  its retry; \<open>call_budget\<close> adds the calls already made.
\<close>

definition may_call_again :: "(QueueJob \<times> suspended) list \<Rightarrow> nat" where
  "may_call_again xs = length (filter (\<lambda>(job, p). p \<noteq> AwaitRetryProcessor) xs)"

definition call_budget :: "'a queue_state \<Rightarrow> nat" where
  "call_budget s =
     length (invocations s) + 2 * length (jobQueue s) + may_call_again (executions s)"

fun is_AddJob :: "'a event \<Rightarrow> bool" where
  "is_AddJob (AddJob uid now rnd) = True"
| "is_AddJob _ = False"

section \<open>Cache store: time to live\<close>

lemma cache_recordResponseTime [simp]: "cache (recordResponseTime rt s) = cache s"
  by (simp add: recordResponseTime_def updateStats_def Let_def)

lemma hits_recordResponseTime [simp]: "hits (stats (recordResponseTime rt s)) = hits (stats s)"
  by (simp add: recordResponseTime_def updateStats_def Let_def)

lemma misses_recordResponseTime [simp]:
  "misses (stats (recordResponseTime rt s)) = misses (stats s)"
  by (simp add: recordResponseTime_def updateStats_def Let_def)

lemma cache_removeExpiredEntries:
  "cache (removeExpiredEntries now s) = filter (\<lambda>(key, entry). \<not> isExpired now entry) (cache s)"
  by (simp add: removeExpiredEntries_def updateStats_def Let_def isExpired_def)

lemma cache_setCache:
  "cache (setCache key v ttl_ms now s) =
     AList.update key \<lparr>entry_value = v, timestamp = now, ttl = ttl_ms\<rparr>
       (cache (evictLRU now (removeExpiredEntries now s)))"
  by (simp add: setCache_def Let_def)

lemma map_of_setCache_same:
  "map_of (cache (setCache key v ttl_ms now s)) key =
     Some \<lparr>entry_value = v, timestamp = now, ttl = ttl_ms\<rparr>"
  by (simp add: cache_setCache update_conv')

lemma getFromCache_result:
  "fst (getFromCache key now s) =
     (case map_of (cache s) key of
        None \<Rightarrow> None
      | Some e \<Rightarrow> if now - timestamp e \<le> ttl e then Some (entry_value e) else None)"
  by (auto simp: getFromCache_def isExpired_def split: option.splits)

text \<open>
  What one call of \<^verbatim>\<open>getFromCache\<close> does, case by case: the test is on the entry's
  \<open>timestamp\<close> field, and a hit overwrites that field with the time of the read.
\<close>

lemma getFromCache_effect:
  "(\<forall>e. map_of (cache s) key = Some e \<and> now - timestamp e \<le> ttl e \<longrightarrow>
        fst (getFromCache key now s) = Some (entry_value e) \<and>
        map_of (cache (snd (getFromCache key now s))) key = Some (e\<lparr>timestamp := now\<rparr>) \<and>
        hits (stats (snd (getFromCache key now s))) = hits (stats s) + 1) \<and>
   (\<forall>e. map_of (cache s) key = Some e \<and> now - timestamp e > ttl e \<longrightarrow>
        fst (getFromCache key now s) = None \<and>
        map_of (cache (snd (getFromCache key now s))) key = None \<and>
        misses (stats (snd (getFromCache key now s))) = misses (stats s) + 1) \<and>
   (map_of (cache s) key = None \<longrightarrow>
        fst (getFromCache key now s) = None \<and>
        misses (stats (snd (getFromCache key now s))) = misses (stats s) + 1) \<and>
   fst (getFromCache key t1 (setCache key v ttl_ms t0 s)) =
     (if t1 - t0 \<le> ttl_ms then Some v else None)"
proof (intro conjI allI impI)
  fix e assume "map_of (cache s) key = Some e \<and> now - timestamp e \<le> ttl e"
  then show "fst (getFromCache key now s) = Some (entry_value e)"
    and "map_of (cache (snd (getFromCache key now s))) key = Some (e\<lparr>timestamp := now\<rparr>)"
    and "hits (stats (snd (getFromCache key now s))) = hits (stats s) + 1"
    by (simp_all add: getFromCache_def isExpired_def update_conv')
next
  fix e assume "map_of (cache s) key = Some e \<and> ttl e < now - timestamp e"
  then show "fst (getFromCache key now s) = None"
    and "map_of (cache (snd (getFromCache key now s))) key = None"
    and "misses (stats (snd (getFromCache key now s))) = misses (stats s) + 1"
    by (simp_all add: getFromCache_def isExpired_def delete_conv')
next
  assume "map_of (cache s) key = None"
  then show "fst (getFromCache key now s) = None"
    and "misses (stats (snd (getFromCache key now s))) = misses (stats s) + 1"
    by (simp_all add: getFromCache_def)
next
  show "fst (getFromCache key t1 (setCache key v ttl_ms t0 s)) =
     (if t1 - t0 \<le> ttl_ms then Some v else None)"
    by (simp add: getFromCache_result map_of_setCache_same)
qed

text \<open>
  Claim C4, time to live, against the code: an entry is to be reported absent once
  \<open>ttl\<close> has elapsed since its insertion, whatever reads happened in between. The
  key \<^verbatim>\<open>user:1\<close> is written at time 0 with the TTL of 60000.
  \<^item> Read for the first time at 100000, it is reported absent, as the claim has it.
  \<^item> Read at 50000 it is returned, and that hit sets its \<open>timestamp\<close> to 50000: the
    write that marks the entry as recently used for the eviction goes to the one field
    that \<^verbatim>\<open>isExpired\<close> measures the age from.
  \<^item> Read again at 100000, when 100000 have elapsed since the insertion, it is still
    returned, where the claim has it absent.
\<close>

theorem getFromCache_hit_restarts_ttl:
  "(100000::int) - 0 \<ge> 60000 \<and>
   fst (getFromCache ''user:1'' 100000 (setCache ''user:1'' (7::nat) 60000 0 initial_cache)) = None \<and>
   fst (getFromCache ''user:1'' 50000 (setCache ''user:1'' (7::nat) 60000 0 initial_cache)) = Some 7 \<and>
   map_of (cache (snd (getFromCache ''user:1'' 50000
                    (setCache ''user:1'' (7::nat) 60000 0 initial_cache)))) ''user:1'' =
     Some \<lparr>entry_value = 7, timestamp = 50000, ttl = 60000\<rparr> \<and>
   fst (getFromCache ''user:1'' 100000
         (snd (getFromCache ''user:1'' 50000
                (setCache ''user:1'' (7::nat) 60000 0 initial_cache)))) = Some 7"
  by code_simp

section \<open>Cache store: eviction\<close>




lemma fold_step_unchanged:
  "\<forall>(k, e) \<in> set c. \<not> timestamp e < t0 \<Longrightarrow> fold evictLRU_step c (k0, t0) = (k0, t0)"
  by (induction c) (auto simp: evictLRU_step_def)







lemma user_keys_distinct:
  "distinct (map (\<lambda>i. ''user:'' @ toString (int i)) [1..<102])"
  by code_simp




text \<open>In that cache the evicted entry is \<^verbatim>\<open>user:1\<close>, the one written first.\<close>

lemma full_cache_evicts_first:
  "map_of (cache (setCache ''user:101'' 0 CACHE_TTL 200 full_cache)) ''user:1'' = None \<and>
   map_of (cache (setCache ''user:101'' 0 CACHE_TTL 200 full_cache)) ''user:2'' \<noteq> None \<and>
   length (cache (setCache ''user:101'' 0 CACHE_TTL 200 full_cache)) = 100"
  by code_simp

section \<open>Cache store: capacity\<close>

lemma update_fresh:
  "k \<notin> fst ` set al \<Longrightarrow> AList.update k v al = al @ [(k, v)]"
  by (induction al) auto

lemma setCache_same_tick:
  assumes "\<forall>(k, e) \<in> set (cache s). timestamp e = now \<and> 0 \<le> ttl e"
  shows "cache (setCache key v ttl_ms now s) =
     AList.update key \<lparr>entry_value = v, timestamp = now, ttl = ttl_ms\<rparr> (cache s)"
proof -
  have keep: "filter (\<lambda>(k, e). \<not> isExpired now e) (cache s) = cache s"
    using assms by (auto simp: isExpired_def filter_id_conv)
  have "\<forall>(k, e) \<in> set (cache s). \<not> timestamp e < now" using assms by auto
  then have "evictLRU_scan now (cache s) = ('''', now)"
    unfolding evictLRU_scan_def by (rule fold_step_unchanged)
  then have "cache (evictLRU now (removeExpiredEntries now s)) = cache s"
    by (simp add: evictLRU_def cache_removeExpiredEntries keep Let_def)
  then show ?thesis by (simp add: cache_setCache)
qed

lemma setCache_all_same_tick:
  assumes "\<forall>(k, e) \<in> set (cache s). timestamp e = now \<and> 0 \<le> ttl e"
    and "distinct keys" and "set keys \<inter> fst ` set (cache s) = {}"
  shows "length (cache (setCache_all keys v now s)) = length (cache s) + length keys"
  using assms
proof (induction keys arbitrary: s)
  case Nil
  then show ?case by simp
next
  case (Cons key keys)
  let ?s' = "setCache key v CACHE_TTL now s"
  have fresh: "key \<notin> fst ` set (cache s)" using Cons.prems(3) by auto
  have c': "cache ?s' = cache s @ [(key, \<lparr>entry_value = v, timestamp = now, ttl = CACHE_TTL\<rparr>)]"
    using setCache_same_tick[OF Cons.prems(1)] update_fresh[OF fresh] by simp
  have inv: "\<forall>(k, e) \<in> set (cache ?s'). timestamp e = now \<and> 0 \<le> ttl e"
    unfolding c' using Cons.prems(1) by (auto simp: CACHE_TTL_def)
  have disj: "set keys \<inter> fst ` set (cache ?s') = {}"
    unfolding c' using Cons.prems(2,3) by auto
  from Cons.prems(2) have "distinct keys" by simp
  from Cons.IH[OF inv this disj] show ?case by (simp add: c')
qed

text \<open>
  Claim C6 says that the cache never holds more than \<open>maxSize\<close> entries. The code loses
  this bound. \<^verbatim>\<open>evictLRU\<close> starts its search with \<^verbatim>\<open>oldestTime = Date.now()\<close> and takes an
  entry only if its timestamp is strictly older, so when every entry was written or read
  in the current millisecond it finds nothing and evicts nothing: 101 writes of the keys
  \<^verbatim>\<open>user:1\<close> to \<^verbatim>\<open>user:101\<close> within one millisecond leave 101 entries. It also evicts
  nothing when the oldest entry has the empty string as its key, since
  \<^verbatim>\<open>if (oldestKey)\<close> is then false: a write of a new key at time 200 into the full cache
  \<open>full_cache_empty_key\<close> leaves 101 entries as well.
\<close>

theorem setCache_exceeds_MAX_CACHE_SIZE:
  "length (cache (setCache_all (map (\<lambda>i. ''user:'' @ toString (int i)) [1..<102]) (0::nat) 0
      initial_cache)) = 101 \<and>
   length (cache full_cache_empty_key) = 100 \<and>
   length (cache (setCache ''user:100'' 0 CACHE_TTL 200 full_cache_empty_key)) = 101 \<and>
   MAX_CACHE_SIZE = 100"
proof -
  have "length (cache (setCache_all (map (\<lambda>i. ''user:'' @ toString (int i)) [1..<102]) (0::nat) 0
      initial_cache)) =
    length (cache (initial_cache :: nat cache_state)) +
    length (map (\<lambda>i. ''user:'' @ toString (int i)) [1..<102])"
  proof (rule setCache_all_same_tick)
    show "distinct (map (\<lambda>i. ''user:'' @ toString (int i)) [1..<102])"
      by (rule user_keys_distinct)
  qed (simp_all add: initial_cache_def)
  then have same_tick: "length (cache (setCache_all
      (map (\<lambda>i. ''user:'' @ toString (int i)) [1..<102]) (0::nat) 0 initial_cache)) = 101"
    by (simp add: initial_cache_def)
  have "length (cache full_cache_empty_key) = 100"
    by (simp add: full_cache_empty_key_def)
  moreover have "length (cache (setCache ''user:100'' 0 CACHE_TTL 200 full_cache_empty_key)) = 101"
    by code_simp
  ultimately show ?thesis using same_tick by (simp add: MAX_CACHE_SIZE_def)
qed

section \<open>Rate limiter\<close>

lemma cleanup_idem:
  "cleanupExpiredRequests now (cleanupExpiredRequests now xs w) w = cleanupExpiredRequests now xs w"
  by (simp add: cleanupExpiredRequests_def)

lemma cleanup_append_now:
  "0 < w \<Longrightarrow> cleanupExpiredRequests now (cleanupExpiredRequests now xs w @ [now]) w =
     cleanupExpiredRequests now xs w @ [now]"
  by (simp add: cleanupExpiredRequests_def)

lemma cleanup_later:
  "now \<le> now' \<Longrightarrow> cleanupExpiredRequests now' (cleanupExpiredRequests now xs w) w =
     cleanupExpiredRequests now' xs w"
  by (auto simp: cleanupExpiredRequests_def intro!: filter_cong)

lemma isRateLimited_eq:
  "isRateLimited now entry config =
     (maxBurstRequests config \<le>
        length (cleanupExpiredRequests now (burstRequests entry) (burstWindowMs config)) \<or>
      maxRequests config \<le>
        length (cleanupExpiredRequests now (requests entry) (windowMs config)),
      \<lparr>requests = cleanupExpiredRequests now (requests entry) (windowMs config),
       burstRequests = cleanupExpiredRequests now (burstRequests entry) (burstWindowMs config)\<rparr>)"
  by (simp add: isRateLimited_def Let_def)

lemma checkRateLimit_allowed:
  "allowed (fst (checkRateLimit c now store)) \<longleftrightarrow>
     \<not> (maxBurstRequests RATE_LIMIT_CONFIG \<le>
          length (cleanupExpiredRequests now (burstRequests (stored_entry store c))
                    (burstWindowMs RATE_LIMIT_CONFIG)) \<or>
        maxRequests RATE_LIMIT_CONFIG \<le>
          length (cleanupExpiredRequests now (requests (stored_entry store c))
                    (windowMs RATE_LIMIT_CONFIG)))"
  by (simp add: checkRateLimit_def isRateLimited_eq Let_def split: prod.splits)

lemma checkRateLimit_store:
  "snd (checkRateLimit c now store) =
     store(c \<mapsto>
       (if allowed (fst (checkRateLimit c now store))
        then \<lparr>requests =
                cleanupExpiredRequests now (requests (stored_entry store c))
                  (windowMs RATE_LIMIT_CONFIG) @ [now],
              burstRequests =
                cleanupExpiredRequests now (burstRequests (stored_entry store c))
                  (burstWindowMs RATE_LIMIT_CONFIG) @ [now]\<rparr>
        else \<lparr>requests =
                cleanupExpiredRequests now (requests (stored_entry store c))
                  (windowMs RATE_LIMIT_CONFIG),
              burstRequests =
                cleanupExpiredRequests now (burstRequests (stored_entry store c))
                  (burstWindowMs RATE_LIMIT_CONFIG)\<rparr>))"
  unfolding checkRateLimit_allowed
  by (simp add: checkRateLimit_def isRateLimited_eq Let_def
      getRateLimitInfo_def addRequest_def cleanup_idem cleanup_append_now
      RATE_LIMIT_CONFIG_def split: prod.splits)

lemma checkRateLimit_all_Cons:
  "checkRateLimit_all c (now # later) store =
     (allowed (fst (checkRateLimit c now store)) #
        fst (checkRateLimit_all c later (snd (checkRateLimit c now store))),
      snd (checkRateLimit_all c later (snd (checkRateLimit c now store))))"
  by (simp add: case_prod_beta)

text \<open>
  Claim C7, the decision rule: a request at \<open>now\<close> is denied if and only if the burst
  window holds at least \<open>maxBurstRequests\<close> timestamps newer than
  \<open>now - burstWindowMs\<close>, or the long window holds at least \<open>maxRequests\<close> timestamps
  newer than \<open>now - windowMs\<close>. With the configured limits (10 per 60 s, 5 per 10 s),
  five requests of a fresh client within one second are all admitted, and a sixth
  request is admitted if and only if 10 s have elapsed since the first.
\<close>

theorem checkRateLimit_decision_rule:
  "(\<not> allowed (fst (checkRateLimit c now store)) \<longleftrightarrow>
      maxBurstRequests RATE_LIMIT_CONFIG \<le>
        length (filter (\<lambda>t. now - burstWindowMs RATE_LIMIT_CONFIG < t)
                  (burstRequests (stored_entry store c))) \<or>
      maxRequests RATE_LIMIT_CONFIG \<le>
        length (filter (\<lambda>t. now - windowMs RATE_LIMIT_CONFIG < t)
                  (requests (stored_entry store c)))) \<and>
   RATE_LIMIT_CONFIG =
     \<lparr>windowMs = 60000, maxRequests = 10, burstWindowMs = 10000, maxBurstRequests = 5\<rparr> \<and>
   (store c = None \<and> t1 \<le> t2 \<and> t2 \<le> t3 \<and> t3 \<le> t4 \<and> t4 \<le> t5 \<and> t5 - t1 \<le> 1000 \<and> t5 \<le> t6 \<longrightarrow>
      fst (checkRateLimit_all c [t1, t2, t3, t4, t5, t6] store) =
        [True, True, True, True, True, t6 - t1 \<ge> 10000])"
proof (intro conjI impI)
  have eq: "\<And>w xs. filter (\<lambda>t. now - w < t) xs = cleanupExpiredRequests now xs w"
    by (auto simp: cleanupExpiredRequests_def intro!: filter_cong)
  show "(\<not> allowed (fst (checkRateLimit c now store))) =
    (maxBurstRequests RATE_LIMIT_CONFIG \<le>
        length (filter (\<lambda>t. now - burstWindowMs RATE_LIMIT_CONFIG < t)
                  (burstRequests (stored_entry store c))) \<or>
      maxRequests RATE_LIMIT_CONFIG \<le>
        length (filter (\<lambda>t. now - windowMs RATE_LIMIT_CONFIG < t)
                  (requests (stored_entry store c))))"
    unfolding eq by (simp add: checkRateLimit_allowed)
next
  show "RATE_LIMIT_CONFIG =
     \<lparr>windowMs = 60000, maxRequests = 10, burstWindowMs = 10000, maxBurstRequests = 5\<rparr>"
    by (simp add: RATE_LIMIT_CONFIG_def)
next
  assume a: "store c = None \<and> t1 \<le> t2 \<and> t2 \<le> t3 \<and> t3 \<le> t4 \<and> t4 \<le> t5 \<and> t5 - t1 \<le> 1000 \<and> t5 \<le> t6"
  define s1 where "s1 = snd (checkRateLimit c t1 store)"
  define s2 where "s2 = snd (checkRateLimit c t2 s1)"
  define s3 where "s3 = snd (checkRateLimit c t3 s2)"
  define s4 where "s4 = snd (checkRateLimit c t4 s3)"
  define s5 where "s5 = snd (checkRateLimit c t5 s4)"
  note defs = checkRateLimit_allowed checkRateLimit_store stored_entry_def
    cleanupExpiredRequests_def RATE_LIMIT_CONFIG_def
  have a1: "allowed (fst (checkRateLimit c t1 store))"
    and e1: "s1 c = Some \<lparr>requests = [t1], burstRequests = [t1]\<rparr>"
    using a by (simp_all add: s1_def defs)
  have a2: "allowed (fst (checkRateLimit c t2 s1))"
    and e2: "s2 c = Some \<lparr>requests = [t1, t2], burstRequests = [t1, t2]\<rparr>"
    using a e1 by (simp_all add: s2_def defs)
  have a3: "allowed (fst (checkRateLimit c t3 s2))"
    and e3: "s3 c = Some \<lparr>requests = [t1, t2, t3], burstRequests = [t1, t2, t3]\<rparr>"
    using a e2 by (simp_all add: s3_def defs)
  have a4: "allowed (fst (checkRateLimit c t4 s3))"
    and e4: "s4 c = Some \<lparr>requests = [t1, t2, t3, t4], burstRequests = [t1, t2, t3, t4]\<rparr>"
    using a e3 by (simp_all add: s4_def defs)
  have a5: "allowed (fst (checkRateLimit c t5 s4))"
    and e5: "s5 c = Some \<lparr>requests = [t1, t2, t3, t4, t5], burstRequests = [t1, t2, t3, t4, t5]\<rparr>"
    using a e4 by (simp_all add: s5_def defs)
  have a6: "allowed (fst (checkRateLimit c t6 s5)) \<longleftrightarrow> t6 - t1 \<ge> 10000"
  proof (cases "t6 - t1 \<ge> 10000")
    case True
    have "length (filter (\<lambda>t. t6 - t < 10000) [t1, t2, t3, t4, t5]) \<le> 4"
      using True length_filter_le[of "\<lambda>t. t6 - t < 10000" "[t2, t3, t4, t5]"] by simp
    moreover have "length (filter (\<lambda>t. t6 - t < 60000) [t1, t2, t3, t4, t5]) \<le> 5"
      using length_filter_le[of "\<lambda>t. t6 - t < 60000" "[t1, t2, t3, t4, t5]"] by simp
    ultimately show ?thesis using True e5
      by (simp add: checkRateLimit_allowed stored_entry_def cleanupExpiredRequests_def
          RATE_LIMIT_CONFIG_def del: filter.simps)
  next
    case False
    with a have "filter (\<lambda>t. t6 - t < 10000) [t1, t2, t3, t4, t5] = [t1, t2, t3, t4, t5]"
      by simp
    with False e5 show ?thesis
      by (simp add: checkRateLimit_allowed stored_entry_def cleanupExpiredRequests_def
          RATE_LIMIT_CONFIG_def del: filter.simps)
  qed
  show "fst (checkRateLimit_all c [t1, t2, t3, t4, t5, t6] store) =
        [True, True, True, True, True, t6 - t1 \<ge> 10000]"
    using a1 a2 a3 a4 a5 a6
    by (simp add: checkRateLimit_all_Cons s1_def[symmetric] s2_def[symmetric] s3_def[symmetric]
        s4_def[symmetric] s5_def[symmetric] del: checkRateLimit_all.simps(2))
qed

theorem checkRateLimit_decision_rule_witness:
  "(Map.empty :: rate_limit_store) ''10.0.0.1'' = None \<and>
   fst (checkRateLimit_all ''10.0.0.1'' [0, 200, 400, 600, 800, 9999] Map.empty) =
     [True, True, True, True, True, False] \<and>
   fst (checkRateLimit_all ''10.0.0.1'' [0, 200, 400, 600, 800, 10000] Map.empty) =
     [True, True, True, True, True, True]"
  using checkRateLimit_decision_rule[of "''10.0.0.1''" 0 Map.empty 0 200 400 600 800 9999]
    checkRateLimit_decision_rule[of "''10.0.0.1''" 0 Map.empty 0 200 400 600 800 10000]
  by simp

lemma fold_min_Min: "fold min xs (a::int) = Min (set xs \<union> {a})"
proof (induction xs arbitrary: a)
  case Nil then show ?case by simp
next
  case (Cons x xs)
  have "Min (insert x (insert a (set xs))) = min x (Min (insert a (set xs)))"
    by (rule Min_insert) simp_all
  also have "\<dots> = Min (insert (min x a) (set xs))"
    by (cases "set xs = {}") (simp_all add: min.assoc)
  finally show ?case using Cons.IH[of "min x a"] by (simp add: min.commute insert_commute)
qed

lemma fold_min_append_Min: "fold min (xs @ ys) (a::int) = Min (set xs \<union> set ys \<union> {a})"
  using fold_min_Min[of "xs @ ys" a] by simp

lemma getRateLimitInfo_resetTime:
  "resetTime (fst (getRateLimitInfo now e config)) =
     ceil_div (Min (set (requests (snd (getRateLimitInfo now e config))) \<union>
                    set (burstRequests (snd (getRateLimitInfo now e config))) \<union> {now})
               + windowMs config) 1000"
  by (simp add: getRateLimitInfo_def Let_def fold_min_append_Min del: fold_append)

lemma checkRateLimit_info:
  "\<exists>e2. info (fst (checkRateLimit c now store)) = fst (getRateLimitInfo now e2 RATE_LIMIT_CONFIG) \<and>
        snd (checkRateLimit c now store) c = Some (snd (getRateLimitInfo now e2 RATE_LIMIT_CONFIG))"
  by (simp add: checkRateLimit_def Let_def case_prod_beta) blast

text \<open>
  Claim C8 says that \<open>resetTime\<close> is the time at which the oldest timestamp of the
  constraining window leaves that window. After five requests at the times 0 to 4 ms a
  sixth at 5 ms is denied by the burst window (5 of 5, against 5 of 10 in the long
  window), whose oldest timestamp leaves it at 0 + 10000 ms, that is at second 10. The
  code reports second 60: it always adds the long window's duration.
\<close>

theorem resetTime_burst_counterexample:
  "\<not> allowed (fst (checkRateLimit ''10.0.0.1'' 5
        (snd (checkRateLimit_all ''10.0.0.1'' [0, 1, 2, 3, 4] Map.empty)))) \<and>
   snd (checkRateLimit_all ''10.0.0.1'' [0, 1, 2, 3, 4] Map.empty) ''10.0.0.1'' =
     Some \<lparr>requests = [0, 1, 2, 3, 4], burstRequests = [0, 1, 2, 3, 4]\<rparr> \<and>
   maxBurstRequests RATE_LIMIT_CONFIG = 5 \<and> maxRequests RATE_LIMIT_CONFIG = 10 \<and>
   ceil_div (0 + burstWindowMs RATE_LIMIT_CONFIG) 1000 = 10 \<and>
   resetTime (info (fst (checkRateLimit ''10.0.0.1'' 5
        (snd (checkRateLimit_all ''10.0.0.1'' [0, 1, 2, 3, 4] Map.empty))))) = 60"
  by code_simp

text \<open>
  Claim C8 as the code has it: whichever window constrains, \<open>resetTime\<close> is the oldest
  timestamp left in either window after the call (or \<open>now\<close> if both are empty) plus the
  duration \<open>windowMs\<close> of the long window, in seconds, rounded up.
\<close>

theorem checkRateLimit_resetTime_long_window:
  "\<exists>e. snd (checkRateLimit c now store) c = Some e \<and>
     resetTime (info (fst (checkRateLimit c now store))) =
       ceil_div (Min (set (requests e) \<union> set (burstRequests e) \<union> {now})
                 + windowMs RATE_LIMIT_CONFIG) 1000"
proof -
  from checkRateLimit_info[of c now store] obtain e2 where
    "info (fst (checkRateLimit c now store)) = fst (getRateLimitInfo now e2 RATE_LIMIT_CONFIG)"
    "snd (checkRateLimit c now store) c = Some (snd (getRateLimitInfo now e2 RATE_LIMIT_CONFIG))"
    by blast
  then show ?thesis by (simp add: getRateLimitInfo_resetTime)
qed

text \<open>
  Claim C9 says that the state after a check equals the state before it. A client whose
  windows hold one request made at time 0 is admitted at time 1, and \<^verbatim>\<open>checkRateLimit\<close>
  records that request in both windows.
\<close>

theorem checkRateLimit_mutates_counterexample:
  "snd (checkRateLimit ''10.0.0.1'' 1
         [''10.0.0.1'' \<mapsto> \<lparr>requests = [0], burstRequests = [0]\<rparr>]) ''10.0.0.1'' =
     Some \<lparr>requests = [0, 1], burstRequests = [0, 1]\<rparr> \<and>
   snd (checkRateLimit ''10.0.0.1'' 1
         [''10.0.0.1'' \<mapsto> \<lparr>requests = [0], burstRequests = [0]\<rparr>]) \<noteq>
     [''10.0.0.1'' \<mapsto> \<lparr>requests = [0], burstRequests = [0]\<rparr>]"
proof -
  have 1: "snd (checkRateLimit ''10.0.0.1'' 1
         [''10.0.0.1'' \<mapsto> \<lparr>requests = [0], burstRequests = [0]\<rparr>]) ''10.0.0.1'' =
     Some \<lparr>requests = [0, 1], burstRequests = [0, 1]\<rparr>"
    by code_simp
  moreover have "[''10.0.0.1'' \<mapsto> \<lparr>requests = [0::int], burstRequests = [0::int]\<rparr>] ''10.0.0.1''
      \<noteq> Some \<lparr>requests = [0, 1], burstRequests = [0, 1]\<rparr>"
    by simp
  ultimately show ?thesis by metis
qed

text \<open>
  Claim C9 as the code has it: \<^verbatim>\<open>checkRateLimit\<close> changes the entry of the client it is
  called for and no other entry. It drops from both windows the timestamps that have
  left them and, when it admits the request, appends \<open>now\<close> to both; a client without
  an entry gets one.
\<close>

theorem checkRateLimit_state_after:
  "snd (checkRateLimit c now store) =
     store(c \<mapsto>
       (if allowed (fst (checkRateLimit c now store))
        then \<lparr>requests =
                filter (\<lambda>t. now - t < windowMs RATE_LIMIT_CONFIG) (requests (stored_entry store c)) @ [now],
              burstRequests =
                filter (\<lambda>t. now - t < burstWindowMs RATE_LIMIT_CONFIG)
                  (burstRequests (stored_entry store c)) @ [now]\<rparr>
        else \<lparr>requests =
                filter (\<lambda>t. now - t < windowMs RATE_LIMIT_CONFIG) (requests (stored_entry store c)),
              burstRequests =
                filter (\<lambda>t. now - t < burstWindowMs RATE_LIMIT_CONFIG)
                  (burstRequests (stored_entry store c))\<rparr>))"
  using checkRateLimit_store[of c now store] by (simp add: cleanupExpiredRequests_def)

lemma checkRateLimit_cong_cleanup:
  assumes "cleanupExpiredRequests now (requests (stored_entry store1 c)) (windowMs RATE_LIMIT_CONFIG) =
           cleanupExpiredRequests now (requests (stored_entry store2 c)) (windowMs RATE_LIMIT_CONFIG)"
    and "cleanupExpiredRequests now (burstRequests (stored_entry store1 c)) (burstWindowMs RATE_LIMIT_CONFIG) =
         cleanupExpiredRequests now (burstRequests (stored_entry store2 c)) (burstWindowMs RATE_LIMIT_CONFIG)"
  shows "fst (checkRateLimit c now store1) = fst (checkRateLimit c now store2)"
    and "snd (checkRateLimit c now store1) c = snd (checkRateLimit c now store2) c"
  using assms
  by (simp_all add: checkRateLimit_def isRateLimited_eq Let_def
      getRateLimitInfo_def addRequest_def case_prod_beta)

text \<open>
  Claim C10: a denied request consumes no budget. When \<^verbatim>\<open>checkRateLimit\<close> denies a
  request, the client had an entry, and the entry afterwards holds the timestamps it
  held before minus those that have left their window: nothing is appended. Every
  later call for that client then gives the same result and the same entry as it would
  have given had the denied request never been made.
\<close>

theorem denied_request_consumes_no_budget:
  assumes "\<not> allowed (fst (checkRateLimit c now store))"
  shows "\<exists>e. store c = Some e \<and>
           snd (checkRateLimit c now store) c =
             Some \<lparr>requests = filter (\<lambda>t. now - t < windowMs RATE_LIMIT_CONFIG) (requests e),
                   burstRequests =
                     filter (\<lambda>t. now - t < burstWindowMs RATE_LIMIT_CONFIG) (burstRequests e)\<rparr> \<and>
           (\<forall>now' \<ge> now.
              fst (checkRateLimit c now' (snd (checkRateLimit c now store))) =
                fst (checkRateLimit c now' store) \<and>
              snd (checkRateLimit c now' (snd (checkRateLimit c now store))) c =
                snd (checkRateLimit c now' store) c)"
proof -
  from assms obtain e where e: "store c = Some e"
    by (cases "store c")
       (auto simp: checkRateLimit_allowed stored_entry_def cleanupExpiredRequests_def
          RATE_LIMIT_CONFIG_def)
  define e' where "e' =
    \<lparr>requests = cleanupExpiredRequests now (requests e) (windowMs RATE_LIMIT_CONFIG),
     burstRequests = cleanupExpiredRequests now (burstRequests e) (burstWindowMs RATE_LIMIT_CONFIG)\<rparr>"
  have after: "snd (checkRateLimit c now store) = store(c \<mapsto> e')"
    using assms e checkRateLimit_store[of c now store] by (simp add: stored_entry_def e'_def)
  have st: "stored_entry (snd (checkRateLimit c now store)) c = e'" "stored_entry store c = e"
    by (simp_all add: after e stored_entry_def)
  have later: "\<forall>now' \<ge> now.
              fst (checkRateLimit c now' (snd (checkRateLimit c now store))) =
                fst (checkRateLimit c now' store) \<and>
              snd (checkRateLimit c now' (snd (checkRateLimit c now store))) c =
                snd (checkRateLimit c now' store) c"
  proof (intro allI impI)
    fix now' assume le: "now \<le> now'"
    have "cleanupExpiredRequests now' (requests e') (windowMs RATE_LIMIT_CONFIG) =
            cleanupExpiredRequests now' (requests e) (windowMs RATE_LIMIT_CONFIG)"
      "cleanupExpiredRequests now' (burstRequests e') (burstWindowMs RATE_LIMIT_CONFIG) =
         cleanupExpiredRequests now' (burstRequests e) (burstWindowMs RATE_LIMIT_CONFIG)"
      using le by (simp_all add: e'_def cleanup_later)
    then show "fst (checkRateLimit c now' (snd (checkRateLimit c now store))) =
                fst (checkRateLimit c now' store) \<and>
              snd (checkRateLimit c now' (snd (checkRateLimit c now store))) c =
                snd (checkRateLimit c now' store) c"
      using checkRateLimit_cong_cleanup[of now' "snd (checkRateLimit c now store)" c store]
      by (simp add: st)
  qed
  from e after later show ?thesis
    by (simp add: e'_def cleanupExpiredRequests_def)
qed

theorem denied_request_consumes_no_budget_witness:
  "\<not> allowed (fst (checkRateLimit ''10.0.0.1'' 5
        [''10.0.0.1'' \<mapsto> \<lparr>requests = [0, 1, 2, 3, 4], burstRequests = [0, 1, 2, 3, 4]\<rparr>])) \<and>
   snd (checkRateLimit ''10.0.0.1'' 5
        [''10.0.0.1'' \<mapsto> \<lparr>requests = [0, 1, 2, 3, 4], burstRequests = [0, 1, 2, 3, 4]\<rparr>]) ''10.0.0.1'' =
     Some \<lparr>requests = [0, 1, 2, 3, 4], burstRequests = [0, 1, 2, 3, 4]\<rparr> \<and>
   fst (checkRateLimit ''10.0.0.1'' 10000
         (snd (checkRateLimit ''10.0.0.1'' 5
           [''10.0.0.1'' \<mapsto> \<lparr>requests = [0, 1, 2, 3, 4], burstRequests = [0, 1, 2, 3, 4]\<rparr>]))) =
     fst (checkRateLimit ''10.0.0.1'' 10000
           [''10.0.0.1'' \<mapsto> \<lparr>requests = [0, 1, 2, 3, 4], burstRequests = [0, 1, 2, 3, 4]\<rparr>])"
proof -
  have d: "\<not> allowed (fst (checkRateLimit ''10.0.0.1'' 5
        [''10.0.0.1'' \<mapsto> \<lparr>requests = [0, 1, 2, 3, 4], burstRequests = [0, 1, 2, 3, 4]\<rparr>]))"
    by code_simp
  from denied_request_consumes_no_budget[OF d] d show ?thesis
    by (simp add: RATE_LIMIT_CONFIG_def)
qed

section \<open>Job queue: one processor call per \<^verbatim>\<open>addJob\<close>\<close>

text \<open>
  With no job waiting, no result stored and fewer than \<open>maxConcurrency\<close> jobs active,
  \<^verbatim>\<open>addJob\<close> calls the processor for its own new job before it returns, whatever the
  user id and whatever is already running.
\<close>

lemma addJob_idle_calls_processor:
  assumes "jobQueue s = []" and "jobResults s = []"
    and "length (activeJobs s) < maxConcurrency QUEUE_CONFIG"
  shows "invocations (addJob uid now rnd s) = invocations s @ [generateJobId now rnd]"
    and "jobQueue (addJob uid now rnd s) = []"
    and "jobResults (addJob uid now rnd s) = []"
proof -
  let ?job = "createJob uid now rnd"
  let ?s1 = "s\<lparr>queueStats := (queueStats s)\<lparr>totalJobs := totalJobs (queueStats s) + 1\<rparr>\<rparr>"
  let ?s2 = "updateQueueStats (?s1\<lparr>jobQueue := jobQueue ?s1 @ [?job]\<rparr>)"
  let ?s3 = "updateQueueStats
               (processJob_call ?job
                 (?s2\<lparr>jobQueue := [],
                       executions := executions ?s2 @ [(?job, AwaitProcessor)],
                       activeJobs := (if job_id ?job \<in> set (activeJobs ?s2)
                                      then activeJobs ?s2
                                      else activeJobs ?s2 @ [job_id ?job])\<rparr>))"
  have q: "jobQueue ?s2 = [?job]" "jobResults ?s2 = []" "activeJobs ?s2 = activeJobs s"
    using assms by (simp_all add: updateQueueStats_def)
  have "processQueue now ?s2 = processQueue now ?s3"
    using q assms(3) by (subst processQueue.simps) (simp add: existingResult_def)
  also have "\<dots> = ?s3"
    by (subst processQueue.simps) (simp add: updateQueueStats_def processJob_call_def)
  finally have pq: "processQueue now ?s2 = ?s3" .
  show "invocations (addJob uid now rnd s) = invocations s @ [generateJobId now rnd]"
    and "jobQueue (addJob uid now rnd s) = []"
    and "jobResults (addJob uid now rnd s) = []"
    unfolding addJob_def Let_def pq using assms(2)
    by (simp_all add: updateQueueStats_def processJob_call_def createJob_def)
qed

text \<open>
  Claim C1, the coalescing guarantee, against the code. Two \<^verbatim>\<open>addJob\<close> calls for user 7
  arrive in the same millisecond on an idle queue. Each creates its own job and calls
  the processor for it at once: two calls of the processor before any has completed,
  where the claim has exactly one. When the two fetches return 10 and 20, each caller
  is resolved with the result of its own job, so the callers do not receive the same
  result either.
\<close>

theorem addJob_same_user_not_coalesced:
  "map_option invocations
     (run [AddJob 7 1000 ''k3j5x9q2a'', AddJob 7 1000 ''p0w8m4z1c'']
        (clearQueue :: nat queue_state)) =
     Some [''job_1000_k3j5x9q2a'', ''job_1000_p0w8m4z1c''] \<and>
   map_option jobResults
     (run [AddJob 7 1000 ''k3j5x9q2a'', AddJob 7 1000 ''p0w8m4z1c'']
        (clearQueue :: nat queue_state)) = Some [] \<and>
   map_option invocations
     (run [AddJob 7 1000 ''k3j5x9q2a'', AddJob 7 1000 ''p0w8m4z1c'',
           ProcessorSettles ''job_1000_k3j5x9q2a'' (Inr 10) 1200,
           ProcessorSettles ''job_1000_p0w8m4z1c'' (Inr 20) 1200,
           Poll ''job_1000_k3j5x9q2a'', Poll ''job_1000_p0w8m4z1c'']
        (clearQueue :: nat queue_state)) =
     Some [''job_1000_k3j5x9q2a'', ''job_1000_p0w8m4z1c''] \<and>
   map_option callers
     (run [AddJob 7 1000 ''k3j5x9q2a'', AddJob 7 1000 ''p0w8m4z1c'',
           ProcessorSettles ''job_1000_k3j5x9q2a'' (Inr 10) 1200,
           ProcessorSettles ''job_1000_p0w8m4z1c'' (Inr 20) 1200,
           Poll ''job_1000_k3j5x9q2a'', Poll ''job_1000_p0w8m4z1c'']
        (clearQueue :: nat queue_state)) =
     Some [(''job_1000_k3j5x9q2a'', Resolved (Some 10)),
           (''job_1000_p0w8m4z1c'', Resolved (Some 20))]"
  by code_simp

section \<open>Job queue: retries\<close>

lemma may_call_again_append [simp]:
  "may_call_again (xs @ ys) = may_call_again xs + may_call_again ys"
  by (simp add: may_call_again_def)

lemma may_call_again_single [simp]:
  "may_call_again [(job, p)] = (if p = AwaitRetryProcessor then 0 else 1)"
  by (simp add: may_call_again_def)

lemma may_call_again_remove:
  "may_call_again (remove_execution jid xs) \<le> may_call_again xs"
proof (induction xs)
  case Nil
  then show ?case by simp
next
  case (Cons x xs)
  obtain job p where x: "x = (job, p)" by (cases x)
  from Cons.IH show ?case by (simp add: x may_call_again_def)
qed

lemma may_call_again_replace:
  "find_execution jid xs = Some (job, p) \<Longrightarrow>
     may_call_again (replace_execution jid (job', p') xs) +
       (if p = AwaitRetryProcessor then 0 else 1) =
     may_call_again xs + (if p' = AwaitRetryProcessor then 0 else 1)"
  by (induction xs) (auto simp: may_call_again_def find_execution_def split: if_splits)

lemma processQueue_budget:
  "call_budget (processQueue now s) \<le> call_budget s \<and>
   totalJobs (queueStats (processQueue now s)) = totalJobs (queueStats s)"
proof (induction now s rule: processQueue.induct)
  case (1 now s)
  show ?case
  proof (cases "jobQueue s")
    case Nil
    then show ?thesis by (subst processQueue.simps, simp)+
  next
    case (Cons job rest)
    show ?thesis
    proof (cases "length (activeJobs s) < maxConcurrency QUEUE_CONFIG")
      case False
      with Cons show ?thesis by (subst processQueue.simps, simp)+
    next
      case True
      let ?start = "updateQueueStats
                        (processJob_call job
                          (s\<lparr>jobQueue := rest,
                             executions := executions s @ [(job, AwaitProcessor)],
                             activeJobs := (if job_id job \<in> set (activeJobs s)
                                            then activeJobs s
                                            else activeJobs s @ [job_id job])\<rparr>))"
      have start: "call_budget ?start = call_budget s"
        "totalJobs (queueStats ?start) = totalJobs (queueStats s)"
        using Cons by (simp_all add: call_budget_def updateQueueStats_def processJob_call_def)
      show ?thesis
      proof (cases "existingResult job now (jobResults s)")
        case None
        have eq: "processQueue now s = processQueue now ?start"
          using Cons True None by (subst processQueue.simps) simp
        have "call_budget (processQueue now ?start) \<le> call_budget ?start \<and>
              totalJobs (queueStats (processQueue now ?start)) = totalJobs (queueStats ?start)"
          using "1.IH" Cons True None by blast
        with start show ?thesis
          unfolding eq by simp
      next
        case (Some r)
        show ?thesis
        proof (cases "error r = None")
          case False
          have eq: "processQueue now s = processQueue now ?start"
            using Cons True Some False by (subst processQueue.simps) auto
          have "call_budget (processQueue now ?start) \<le> call_budget ?start \<and>
                totalJobs (queueStats (processQueue now ?start)) = totalJobs (queueStats ?start)"
            using "1.IH" Cons True Some False by blast
          with start show ?thesis
            unfolding eq by simp
        next
          case noerr: True
          let ?reuse = "s\<lparr>jobQueue := rest,
                              jobResults := AList.update (job_id job) r (jobResults s),
                              queueStats := (queueStats s)
                                \<lparr>completedJobs := completedJobs (queueStats s) + 1\<rparr>\<rparr>"
          have eq: "processQueue now s = processQueue now ?reuse"
            using Cons True Some noerr by (subst processQueue.simps) simp
          have "call_budget ?reuse \<le> call_budget s"
            "totalJobs (queueStats ?reuse) = totalJobs (queueStats s)"
            using Cons by (simp_all add: call_budget_def)
          moreover have "call_budget (processQueue now ?reuse) \<le> call_budget ?reuse \<and>
                totalJobs (queueStats (processQueue now ?reuse)) = totalJobs (queueStats ?reuse)"
            using "1.IH" Cons True Some noerr by blast
          ultimately show ?thesis
            unfolding eq by simp
        qed
      qed
    qed
  qed
qed

lemma addJob_budget:
  "call_budget (addJob uid now rnd s) \<le> call_budget s + 2 \<and>
   totalJobs (queueStats (addJob uid now rnd s)) = totalJobs (queueStats s) + 1"
proof -
  let ?s2 = "updateQueueStats
     (s\<lparr>queueStats := (queueStats s)\<lparr>totalJobs := totalJobs (queueStats s) + 1\<rparr>,
        jobQueue := jobQueue s @ [createJob uid now rnd]\<rparr>)"
  have "call_budget ?s2 = call_budget s + 2"
    "totalJobs (queueStats ?s2) = totalJobs (queueStats s) + 1"
    by (simp_all add: call_budget_def updateQueueStats_def)
  with processQueue_budget[of now ?s2]
  show ?thesis by (simp add: addJob_def Let_def call_budget_def)
qed

lemma executeJob_done_budget:
  "call_budget (executeJob_done job s) \<le> call_budget s \<and>
   totalJobs (queueStats (executeJob_done job s)) = totalJobs (queueStats s)"
  using may_call_again_remove[of "job_id job" "executions s"]
  by (simp add: executeJob_done_def executeJob_finally_def updateQueueStats_def call_budget_def)

lemma processJob_settled_budget [simp]:
  "call_budget (processJob_fulfilled job v now s) = call_budget s"
  "call_budget (processJob_rejected job err now s) = call_budget s"
  "totalJobs (queueStats (processJob_fulfilled job v now s)) = totalJobs (queueStats s)"
  "totalJobs (queueStats (processJob_rejected job err now s)) = totalJobs (queueStats s)"
  by (simp_all add: processJob_fulfilled_def processJob_rejected_def call_budget_def)

lemma processor_settles_budget:
  assumes "processor_settles jid outcome now s = Some s'"
  shows "call_budget s' \<le> call_budget s \<and> totalJobs (queueStats s') = totalJobs (queueStats s)"
proof -
  from assms obtain job p where f: "find_execution jid (executions s) = Some (job, p)"
    by (auto simp: processor_settles_def split: option.splits)
  show ?thesis
  proof (cases p)
    case (AwaitTimer due)
    with assms f show ?thesis by (simp add: processor_settles_def)
  next
    case AwaitRetryProcessor
    with assms f executeJob_done_budget[of job "processJob_fulfilled job _ now s"]
      executeJob_done_budget[of job "processJob_rejected job _ now s"]
    show ?thesis
      by (auto simp: processor_settles_def split: sum.splits)
  next
    case AwaitProcessor
    show ?thesis
    proof (cases outcome)
      case (Inr v)
      with assms f AwaitProcessor executeJob_done_budget[of job "processJob_fulfilled job v now s"]
      show ?thesis by (auto simp: processor_settles_def)
    next
      case (Inl err)
      show ?thesis
      proof (cases "executeJob_catch job err")
        case (Inl e)
        with assms f AwaitProcessor \<open>outcome = Inl err\<close>
          executeJob_done_budget[of job "processJob_rejected job err now s"]
        show ?thesis by (auto simp: processor_settles_def)
      next
        case (Inr jd)
        obtain job' delay where jd: "jd = (job', delay)" by (cases jd)
        from assms f AwaitProcessor \<open>outcome = Inl err\<close> Inr jd
        have s': "s' = (processJob_rejected job err now s)
                   \<lparr>executions := replace_execution jid (job', AwaitTimer (now + delay)) (executions s)\<rparr>"
          by (simp add: processor_settles_def)
        from may_call_again_replace[OF f, of job' "AwaitTimer (now + delay)"] AwaitProcessor
        have "may_call_again (replace_execution jid (job', AwaitTimer (now + delay)) (executions s))
              = may_call_again (executions s)" by simp
        then show ?thesis
          by (simp add: s' call_budget_def processJob_rejected_def)
      qed
    qed
  qed
qed

lemma timer_fires_budget:
  assumes "timer_fires jid now s = Some s'"
  shows "call_budget s' \<le> call_budget s \<and> totalJobs (queueStats s') = totalJobs (queueStats s)"
proof -
  from assms obtain job due where f: "find_execution jid (executions s) = Some (job, AwaitTimer due)"
    and s': "s' = processJob_call job
                 (s\<lparr>executions := replace_execution jid (job, AwaitRetryProcessor) (executions s)\<rparr>)"
    by (auto simp: timer_fires_def split: option.splits suspended.splits if_splits)
  from may_call_again_replace[OF f, of job AwaitRetryProcessor]
  have "may_call_again (replace_execution jid (job, AwaitRetryProcessor) (executions s)) + 1
        = may_call_again (executions s)" by simp
  then show ?thesis by (simp add: s' call_budget_def processJob_call_def)
qed

lemma poll_budget:
  assumes "poll jid s = Some s'"
  shows "call_budget s' \<le> call_budget s \<and> totalJobs (queueStats s') = totalJobs (queueStats s)"
  using assms by (auto simp: poll_def call_budget_def split: if_splits)

lemma step_budget:
  assumes "step e s = Some s'"
  shows "call_budget s' \<le> call_budget s + (if is_AddJob e then 2 else 0) \<and>
         totalJobs (queueStats s') = totalJobs (queueStats s) + (if is_AddJob e then 1 else 0)"
proof (cases e)
  case (AddJob uid now rnd)
  with assms addJob_budget[of uid now rnd s] show ?thesis by auto
next
  case (ProcessorSettles jid outcome now)
  with assms processor_settles_budget[of jid outcome now s s'] show ?thesis by simp
next
  case (TimerFires jid now)
  with assms timer_fires_budget[of jid now s s'] show ?thesis by simp
next
  case (Poll jid)
  with assms poll_budget[of jid s s'] show ?thesis by simp
qed

lemma run_budget:
  "run es s = Some s' \<Longrightarrow>
     call_budget s' \<le> call_budget s + 2 * length (filter is_AddJob es)"
proof (induction es arbitrary: s)
  case Nil
  then show ?case by simp
next
  case (Cons e es)
  from Cons.prems obtain s1 where s1: "step e s = Some s1" "run es s1 = Some s'"
    by (auto split: option.splits)
  from step_budget[OF s1(1)] Cons.IH[OF s1(2)] show ?case by auto
qed

text \<open>
  Whatever the processor does and in whatever order the events come, the processor is
  called at most twice for each \<^verbatim>\<open>addJob\<close>: \<^verbatim>\<open>executeJob\<close> hands a failed job to
  \<^verbatim>\<open>retryJob\<close> once, and \<^verbatim>\<open>retryJob\<close> does not come back to either of them.
\<close>

lemma at_most_two_invocations_per_addJob:
  "run es clearQueue = Some s \<Longrightarrow> length (invocations s) \<le> 2 * length (filter is_AddJob es)"
  using run_budget[of es clearQueue s]
  by (simp add: call_budget_def clearQueue_def may_call_again_def)

text \<open>
  Claim C2, retry exhaustion, against the code. One \<^verbatim>\<open>addJob\<close> for user 7 with a
  processor that fails every time (\<^verbatim>\<open>retryAttempts\<close> is 3):
  \<^item> the first failure at 1200 is stored in \<^verbatim>\<open>jobResults\<close>, and the caller's next poll
    rejects its promise, after one call of the processor;
  \<^item> the retry runs at 2200 and fails at 2400; the job is then finished, after two
    calls of the processor, where the claim has four;
  \<^item> afterwards no timer and no processor promise is left for the job, so there is
    no third call.
\<close>

theorem always_failing_processor_called_twice:
  "map_option invocations
     (run [AddJob 7 1000 ''k3j5x9q2a'',
           ProcessorSettles ''job_1000_k3j5x9q2a'' (Inl ''boom'') 1200,
           Poll ''job_1000_k3j5x9q2a'']
        (clearQueue :: nat queue_state)) = Some [''job_1000_k3j5x9q2a''] \<and>
   map_option callers
     (run [AddJob 7 1000 ''k3j5x9q2a'',
           ProcessorSettles ''job_1000_k3j5x9q2a'' (Inl ''boom'') 1200,
           Poll ''job_1000_k3j5x9q2a'']
        (clearQueue :: nat queue_state)) = Some [(''job_1000_k3j5x9q2a'', Rejected ''boom'')] \<and>
   map_option invocations
     (run [AddJob 7 1000 ''k3j5x9q2a'',
           ProcessorSettles ''job_1000_k3j5x9q2a'' (Inl ''boom'') 1200,
           Poll ''job_1000_k3j5x9q2a'',
           TimerFires ''job_1000_k3j5x9q2a'' 2200,
           ProcessorSettles ''job_1000_k3j5x9q2a'' (Inl ''boom'') 2400]
        (clearQueue :: nat queue_state)) =
     Some [''job_1000_k3j5x9q2a'', ''job_1000_k3j5x9q2a''] \<and>
   map_option executions
     (run [AddJob 7 1000 ''k3j5x9q2a'',
           ProcessorSettles ''job_1000_k3j5x9q2a'' (Inl ''boom'') 1200,
           Poll ''job_1000_k3j5x9q2a'',
           TimerFires ''job_1000_k3j5x9q2a'' 2200,
           ProcessorSettles ''job_1000_k3j5x9q2a'' (Inl ''boom'') 2400]
        (clearQueue :: nat queue_state)) = Some [] \<and>
   run [AddJob 7 1000 ''k3j5x9q2a'',
        ProcessorSettles ''job_1000_k3j5x9q2a'' (Inl ''boom'') 1200,
        Poll ''job_1000_k3j5x9q2a'',
        TimerFires ''job_1000_k3j5x9q2a'' 2200,
        ProcessorSettles ''job_1000_k3j5x9q2a'' (Inl ''boom'') 2400,
        TimerFires ''job_1000_k3j5x9q2a'' 99999]
     (clearQueue :: nat queue_state) = None \<and>
   run [AddJob 7 1000 ''k3j5x9q2a'',
        ProcessorSettles ''job_1000_k3j5x9q2a'' (Inl ''boom'') 1200,
        Poll ''job_1000_k3j5x9q2a'',
        TimerFires ''job_1000_k3j5x9q2a'' 2200,
        ProcessorSettles ''job_1000_k3j5x9q2a'' (Inl ''boom'') 2400,
        ProcessorSettles ''job_1000_k3j5x9q2a'' (Inl ''boom'') 99999]
     (clearQueue :: nat queue_state) = None"
  by code_simp

section \<open>Job queue: delay before a retry\<close>

text \<open>The delay that \<^verbatim>\<open>retryJob\<close> waits grows linearly with the number of the retry.\<close>

lemma retryJob_delay:
  "retries job < retryAttempts QUEUE_CONFIG \<Longrightarrow>
     retryJob job =
       Inr (job\<lparr>retries := retries job + 1\<rparr>, retryDelay QUEUE_CONFIG * (int (retries job) + 1))"
  by (simp add: retryJob_def Let_def add.commute)

text \<open>
  Claim C3, exponential backoff \<open>baseDelay * 2 ^ a\<close> after the failed attempt number
  \<open>a\<close>, against the code.
  \<^item> After the first failure (\<open>a = 0\<close>, at 1200) the retry timer is due at 2200, a delay
    of 1000, and it cannot fire at 2199.
  \<^item> After the second failure (\<open>a = 1\<close>, below the limit of 3) the claim has a wait of
    2000 and a third call; the code ends the job, and no timer is left to fire.
  \<^item> The delay that \<^verbatim>\<open>retryJob\<close> computes is \<^verbatim>\<open>retryDelay * job.retries\<close>: for a job
    that has been retried twice it is 3000, where \<open>1000 * 2 ^ 2\<close> is 4000.
\<close>

theorem retryJob_delay_not_exponential:
  "map_option executions
     (run [AddJob 7 1000 ''k3j5x9q2a'',
           ProcessorSettles ''job_1000_k3j5x9q2a'' (Inl ''boom'') 1200]
        (clearQueue :: nat queue_state)) =
     Some [(\<lparr>job_id = ''job_1000_k3j5x9q2a'', userId = 7, job_timestamp = 1000, retries = 1\<rparr>,
            AwaitTimer 2200)] \<and>
   run [AddJob 7 1000 ''k3j5x9q2a'',
        ProcessorSettles ''job_1000_k3j5x9q2a'' (Inl ''boom'') 1200,
        TimerFires ''job_1000_k3j5x9q2a'' 2199]
     (clearQueue :: nat queue_state) = None \<and>
   map_option executions
     (run [AddJob 7 1000 ''k3j5x9q2a'',
           ProcessorSettles ''job_1000_k3j5x9q2a'' (Inl ''boom'') 1200,
           TimerFires ''job_1000_k3j5x9q2a'' 2200,
           ProcessorSettles ''job_1000_k3j5x9q2a'' (Inl ''boom'') 2400]
        (clearQueue :: nat queue_state)) = Some [] \<and>
   run [AddJob 7 1000 ''k3j5x9q2a'',
        ProcessorSettles ''job_1000_k3j5x9q2a'' (Inl ''boom'') 1200,
        TimerFires ''job_1000_k3j5x9q2a'' 2200,
        ProcessorSettles ''job_1000_k3j5x9q2a'' (Inl ''boom'') 2400,
        TimerFires ''job_1000_k3j5x9q2a'' 4400]
     (clearQueue :: nat queue_state) = None \<and>
   retryJob \<lparr>job_id = ''job_1000_k3j5x9q2a'', userId = 7, job_timestamp = 1000, retries = 2\<rparr> =
     Inr (\<lparr>job_id = ''job_1000_k3j5x9q2a'', userId = 7, job_timestamp = 1000, retries = 3\<rparr>, 3000) \<and>
   retryDelay QUEUE_CONFIG * 2 ^ 2 = 4000"
  by code_simp

end
